theory Spec2Isabelle
  imports Complex_Main "HOL-Library.Sublist" "HOL-Library.Word" "HOL-Library.Log_Nat"
begin

section \<open>Data model\<close>

text \<open>
  A Python \<open>str\<close> is a sequence of Unicode code points; the markers the handlers look
  for are Korean, so a string is a list of code points here. \<open>bytes\<close> is a list of octets.
\<close>

type_synonym pystr = "nat list"
type_synonym bytes = "8 word list"

text \<open>
  A Python \<open>float\<close> is a binary64 value: a finite binary fraction, an infinity or a NaN.
  A finite float is represented by the rational number it denotes (both zeros by 0);
  \<open>is_binary64\<close> below says which rational numbers are floats.
\<close>

datatype pyfloat = Finite rat | PosInf | NegInf | NaN

text \<open>The pydantic models of \<open>app/models.py\<close>.\<close>

record DiseaseInfo =
  name :: pystr
  summary :: "pystr option"
  solution :: "pystr option"

record DiagnosisResult =
  filename :: pystr
  confidence :: pyfloat
  disease_info :: DiseaseInfo

record AnalysisRequest =
  image_url :: pystr

text \<open>
  What the handlers read of an uploaded file: its name, its MIME type, its bytes. The MIME
  type is the \<open>Content-Type\<close> header of the uploaded part, \<open>None\<close> when the part has none.
\<close>

record UploadFile =
  file_filename :: pystr
  content_type :: "pystr option"
  file_contents :: bytes

text \<open>\<open>HTTPException(status_code, detail)\<close>.\<close>

record HTTPException =
  status_code :: int
  detail :: pystr

text \<open>The reply of the remote server to \<open>requests.get\<close>.\<close>

record http_reply =
  reply_status :: int
  content :: bytes

section \<open>Collaborators\<close>

text \<open>
  The handlers call three things that are not theirs: \<open>predict_disease\<close> (returning the
  triple \<open>(disease_info, confidence, error)\<close>, the error being \<open>None\<close> or a string),
  \<open>requests.get\<close> (raising a \<open>RequestException\<close>, \<open>Inl\<close> of its text, or returning a
  reply), and PIL's \<open>Image.open\<close> followed by \<open>verify\<close> (raising an exception, \<open>Some\<close> of
  its text, or passing). \<open>http_error_text\<close> is the text of the \<open>HTTPError\<close> that
  \<open>raise_for_status\<close> builds for a reply.
\<close>

record collaborators =
  predict_disease :: "pystr \<Rightarrow> bytes \<Rightarrow> DiseaseInfo \<times> pyfloat \<times> pystr option"
  requests_get :: "pystr \<Rightarrow> pystr + http_reply"
  image_verify :: "bytes \<Rightarrow> pystr option"
  http_error_text :: "http_reply \<Rightarrow> pystr"

text \<open>Every call of a collaborator is logged, in the order the handler makes them.\<close>

datatype event = Http_get pystr | Image_verify bytes | Predict pystr bytes

fun is_predict :: "event \<Rightarrow> bool" where
  "is_predict (Predict c b) = True"
| "is_predict e = False"

fun is_verify :: "event \<Rightarrow> bool" where
  "is_verify (Image_verify b) = True"
| "is_verify e = False"

section \<open>String operations of Python\<close>

text \<open>\<open>s.startswith(p)\<close>.\<close>

definition startswith :: "pystr \<Rightarrow> pystr \<Rightarrow> bool" where
  "startswith s p = prefix p s"

text \<open>\<open>sub in s\<close>: \<open>sub\<close> occurs in \<open>s\<close> as a contiguous run.\<close>

fun py_in :: "pystr \<Rightarrow> pystr \<Rightarrow> bool" where
  "py_in sub [] = (sub = [])"
| "py_in sub (c # s) = (prefix sub (c # s) \<or> py_in sub s)"

text \<open>\<open>s.split(sep)\<close> for a separator of one character.\<close>

fun split :: "nat \<Rightarrow> pystr \<Rightarrow> pystr list" where
  "split sep [] = [[]]"
| "split sep (c # s) =
     (if c = sep then [] # split sep s
      else (case split sep s of
              [] \<Rightarrow> [[c]]
            | w # ws \<Rightarrow> (c # w) # ws))"

text \<open>\<open>xs[-1]\<close>: the last element, an \<open>IndexError\<close> (\<open>None\<close>) on the empty list.\<close>

definition index_last :: "'a list \<Rightarrow> 'a option" where
  "index_last xs = (case xs of [] \<Rightarrow> None | _ \<Rightarrow> Some (last xs))"

section \<open>Floats and rounding\<close>

text \<open>The integer nearest to a rational number, a tie going to the even one.\<close>

definition round_half_even :: "rat \<Rightarrow> int" where
  "round_half_even q =
     (let f = \<lfloor>q\<rfloor>; d = q - of_int f
      in if d < 1 / 2 then f
         else if 1 / 2 < d then f + 1
         else if even f then f else f + 1)"

text \<open>
  The binary exponent of a rational number other than 0: the \<open>e\<close> with
  \<open>2 powi e \<le> \<bar>q\<bar> < 2 powi (e + 1)\<close> (\<open>exponent2_bounds\<close> below), from the bit lengths
  of numerator and denominator.
\<close>

definition exponent2 :: "rat \<Rightarrow> int" where
  "exponent2 q =
     (let (a, b) = quotient_of \<bar>q\<bar>;
          k = bitlen a - bitlen b
      in if 2 powi k \<le> \<bar>q\<bar> then k else k - 1)"

text \<open>
  The distance between neighbouring binary64 values at \<open>q\<close>: 53 significant bits, the
  smallest normal exponent being -1022.
\<close>

definition ulp :: "rat \<Rightarrow> rat" where
  "ulp q = 2 powi (max (exponent2 q) (- 1022) - 52)"

text \<open>The largest finite binary64 value.\<close>

definition max_binary64 :: rat where
  "max_binary64 = of_int (2 ^ 53 - 1) * 2 powi 971"

text \<open>The rational numbers that are finite binary64 values.\<close>

definition is_binary64 :: "rat \<Rightarrow> bool" where
  "is_binary64 q = (of_int \<lfloor>q / ulp q\<rfloor> = q / ulp q \<and> \<bar>q\<bar> \<le> max_binary64)"

text \<open>
  \<open>round(x, 2)\<close> on a finite float takes two steps. The first writes the exact value of
  \<open>x\<close> with two digits after the decimal point, correctly rounded, a tie going to the even
  digit.
\<close>

definition decimal_round2 :: "rat \<Rightarrow> rat" where
  "decimal_round2 q = of_int (round_half_even (q * 100)) / 100"

text \<open>
  The second reads that decimal back as a float: the binary64 value nearest to it, a tie
  going to the even significand.
\<close>

definition nearest_binary64 :: "rat \<Rightarrow> rat" where
  "nearest_binary64 q = of_int (round_half_even (q / ulp q)) * ulp q"

text \<open>
  \<open>round(x, 2)\<close>; an infinity or a NaN is returned as it is. For a float the result is a
  float again (\<open>round2_is_binary64\<close> below), so the \<open>OverflowError\<close> of \<open>round\<close> does not
  occur.
\<close>

fun py_round2 :: "pyfloat \<Rightarrow> pyfloat" where
  "py_round2 (Finite q) = Finite (nearest_binary64 (decimal_round2 q))"
| "py_round2 x = x"

section \<open>Constants of the handlers\<close>

text \<open>\<open>"image/"\<close> and \<open>"/"\<close>.\<close>

definition image_prefix :: pystr where
  "image_prefix = [105, 109, 97, 103, 101, 47]"

definition slash :: nat where
  "slash = 47"

text \<open>
  The three markers looked for in the collaborator's error text, by code point:
  the unsupported-crop marker (U+C9C0 U+C6D0 U+B418 U+C9C0 U+0020 U+C54A U+B294),
  the model-file-missing marker and the load-failure marker.
\<close>

definition unsupported_marker :: pystr where
  "unsupported_marker = [51648, 50896, 46104, 51648, 32, 50506, 45716]"

definition model_missing_marker :: pystr where
  "model_missing_marker =
     [47784, 45944, 32, 54028, 51068, 51060, 32, 50630, 49845, 45768, 45796]"

definition load_failure_marker :: pystr where
  "load_failure_marker = [48520, 47084, 50724, 45716, 32, 45936, 32, 49892, 54056]"

text \<open>The texts of the three 400 responses (the last two are followed by the exception).\<close>

definition only_images_text :: pystr where
  "only_images_text =
     [51060, 48120, 51648, 32, 54028, 51068, 47564, 32, 50629, 47196, 46300, 54624, 32,
      49688, 32, 51080, 49845, 45768, 45796, 46]"

definition download_failed_text :: pystr where
  "download_failed_text =
     [51060, 48120, 51648, 32, 85, 82, 76, 50640, 49436, 32, 54028, 51068, 51012, 32,
      45796, 50868, 47196, 46300, 54624, 32, 49688, 32, 50630, 49845, 45768, 45796, 58, 32]"

definition invalid_image_text :: pystr where
  "invalid_image_text =
     [50976, 54952, 54620, 32, 51060, 48120, 51648, 32, 54028, 51068, 51060, 32,
      50500, 45785, 45768, 45796, 58, 32]"

text \<open>What the server answers when a handler raises anything but an \<open>HTTPException\<close>.\<close>

definition internal_server_error :: HTTPException where
  "internal_server_error =
     \<lparr>status_code = 500,
      detail = [73, 110, 116, 101, 114, 110, 97, 108, 32, 83, 101, 114, 118, 101, 114, 32,
                69, 114, 114, 111, 114]\<rparr>"

section \<open>The handlers\<close>

type_synonym outcome = "HTTPException + DiagnosisResult"

text \<open>The status of the response: that of the exception, or 200 with the result.\<close>

fun response_status :: "outcome \<Rightarrow> int" where
  "response_status (Inl e) = status_code e"
| "response_status (Inr r) = 200"

text \<open>
  \<open>response.raise_for_status()\<close> of the requests library: an \<open>HTTPError\<close> for a status
  from 400 to 599, nothing for any other status.
\<close>

definition raise_for_status :: "collaborators \<Rightarrow> http_reply \<Rightarrow> pystr option" where
  "raise_for_status env r =
     (if 400 \<le> reply_status r \<and> reply_status r < 600 then Some (http_error_text env r)
      else None)"

text \<open>
  \<open>POST /diagnose/{crop_name}\<close>. \<open>file.content_type.startswith\<close> raises an
  \<open>AttributeError\<close> when the content type is \<open>None\<close>, which the server answers with 500.
\<close>

definition diagnose_crop ::
  "collaborators \<Rightarrow> pystr \<Rightarrow> UploadFile \<Rightarrow> outcome \<times> event list" where
  "diagnose_crop env crop_name file =
     (case content_type file of
        None \<Rightarrow> (Inl internal_server_error, [])
      | Some ct \<Rightarrow>
          if \<not> startswith ct image_prefix
          then (Inl \<lparr>status_code = 400, detail = only_images_text\<rparr>, [])
          else
            (let image_bytes = file_contents file;
                 (info, conf, error) = predict_disease env crop_name image_bytes;
                 log = [Predict crop_name image_bytes];
                 result = \<lparr>filename = file_filename file,
                           confidence = py_round2 conf,
                           disease_info = info\<rparr>
             in case error of
                  None \<Rightarrow> (Inr result, log)
                | Some e \<Rightarrow>
                    if e = [] then (Inr result, log)
                    else if py_in unsupported_marker e
                    then (Inl \<lparr>status_code = 404, detail = e\<rparr>, log)
                    else if py_in model_missing_marker e \<or> py_in load_failure_marker e
                    then (Inl \<lparr>status_code = 404, detail = e\<rparr>, log)
                    else (Inl \<lparr>status_code = 500, detail = e\<rparr>, log)))"

text \<open>\<open>POST /diagnose-by-url/{crop_name}\<close>.\<close>

definition diagnose_by_url ::
  "collaborators \<Rightarrow> pystr \<Rightarrow> AnalysisRequest \<Rightarrow> outcome \<times> event list" where
  "diagnose_by_url env crop_name request =
     (let log1 = [Http_get (image_url request)]
      in case requests_get env (image_url request) of
           Inl e \<Rightarrow> (Inl \<lparr>status_code = 400, detail = download_failed_text @ e\<rparr>, log1)
         | Inr response \<Rightarrow>
             (case raise_for_status env response of
                Some e \<Rightarrow> (Inl \<lparr>status_code = 400, detail = download_failed_text @ e\<rparr>, log1)
              | None \<Rightarrow>
                  (let image_bytes = content response;
                       log2 = log1 @ [Image_verify image_bytes]
                   in case image_verify env image_bytes of
                        Some e \<Rightarrow>
                          (Inl \<lparr>status_code = 400, detail = invalid_image_text @ e\<rparr>, log2)
                      | None \<Rightarrow>
                          (let (info, conf, error) = predict_disease env crop_name image_bytes;
                               log3 = log2 @ [Predict crop_name image_bytes]
                           in case index_last (split slash (image_url request)) of
                                None \<Rightarrow> (Inl internal_server_error, log3)
                              | Some fname \<Rightarrow>
                                  (let result = \<lparr>filename = fname,
                                                 confidence = py_round2 conf,
                                                 disease_info = info\<rparr>
                                   in case error of
                                        None \<Rightarrow> (Inr result, log3)
                                      | Some e \<Rightarrow>
                                          if e = [] then (Inr result, log3)
                                          else if py_in unsupported_marker e
                                          then (Inl \<lparr>status_code = 404, detail = e\<rparr>, log3)
                                          else if py_in model_missing_marker e
                                                  \<or> py_in load_failure_marker e
                                          then (Inl \<lparr>status_code = 404, detail = e\<rparr>, log3)
                                          else (Inl \<lparr>status_code = 500, detail = e\<rparr>, log3))))))"

section \<open>Notions the properties are stated with\<close>

text \<open>The detail of an error response; a result carries none.\<close>

fun error_detail :: "outcome \<Rightarrow> pystr option" where
  "error_detail (Inl e) = Some (detail e)"
| "error_detail (Inr r) = None"

text \<open>
  What the first \<open>try\<close> block of \<open>diagnose_by_url\<close> leaves in \<open>image_bytes\<close>: the content of
  the reply, or nothing when \<open>requests.get\<close> or \<open>raise_for_status\<close> raised.
\<close>

definition fetched_bytes :: "collaborators \<Rightarrow> AnalysisRequest \<Rightarrow> bytes option" where
  "fetched_bytes env request =
     (case requests_get env (image_url request) of
        Inl e \<Rightarrow> None
      | Inr response \<Rightarrow>
          (case raise_for_status env response of
             Some e \<Rightarrow> None
           | None \<Rightarrow> Some (content response)))"

text \<open>
  The part of a URL after its last \<open>"/"\<close>, as the specification words the file name of
  the URL endpoint (all of the URL when it has no \<open>"/"\<close>).
\<close>

definition after_last_slash :: "pystr \<Rightarrow> pystr" where
  "after_last_slash url = rev (takeWhile (\<lambda>c. c \<noteq> slash) (rev url))"

text \<open>A confidence in the interval from 0 to 100.\<close>

fun in_percent_range :: "pyfloat \<Rightarrow> bool" where
  "in_percent_range (Finite q) = (0 \<le> q \<and> q \<le> 100)"
| "in_percent_range x = False"

text \<open>The values a Python \<open>float\<close> can hold.\<close>

fun is_float :: "pyfloat \<Rightarrow> bool" where
  "is_float (Finite q) = is_binary64 q"
| "is_float x = True"

text \<open>
  \<open>y\<close> is \<open>x\<close> rounded to 2 decimal places by way of the decimal \<open>d\<close>: \<open>d\<close> is a whole
  number of hundredths at most half a hundredth away from \<open>x\<close>, the even one when \<open>x\<close> is
  halfway between two; and \<open>y\<close> is the binary64 value next to \<open>d\<close>, a multiple of the
  spacing at \<open>d\<close> at most half a spacing away from it, the even one when \<open>d\<close> is halfway
  between two. An infinity or a NaN has no decimal places and stays.
\<close>

fun rounded_to_2_places :: "rat \<Rightarrow> pyfloat \<Rightarrow> pyfloat \<Rightarrow> bool" where
  "rounded_to_2_places d (Finite q) (Finite y) =
     (of_int \<lfloor>d * 100\<rfloor> = d * 100 \<and> \<bar>d - q\<bar> \<le> 1 / 200
      \<and> (\<bar>d - q\<bar> = 1 / 200 \<longrightarrow> even \<lfloor>d * 100\<rfloor>)
      \<and> of_int \<lfloor>y / ulp d\<rfloor> = y / ulp d \<and> \<bar>y - d\<bar> \<le> ulp d / 2
      \<and> (\<bar>y - d\<bar> = ulp d / 2 \<longrightarrow> even \<lfloor>y / ulp d\<rfloor>))"
| "rounded_to_2_places d (Finite q) y = False"
| "rounded_to_2_places d x y = (y = x)"

section \<open>Example collaborators\<close>

text \<open>
  Collaborators that give the same answers to every call: a prediction, the outcome of
  the fetch and the outcome of the image check.
\<close>

definition fixed_env ::
  "DiseaseInfo \<times> pyfloat \<times> pystr option \<Rightarrow> pystr + http_reply \<Rightarrow> pystr option
   \<Rightarrow> collaborators" where
  "fixed_env p g v =
     \<lparr>predict_disease = (\<lambda>c b. p), requests_get = (\<lambda>u. g), image_verify = (\<lambda>b. v),
      http_error_text = (\<lambda>r. [])\<rparr>"

definition some_info :: DiseaseInfo where
  "some_info = \<lparr>name = [111, 107], summary = None, solution = None\<rparr>"

text \<open>
  An upload named \<open>a.png\<close> of type \<open>image/png\<close>, one of type \<open>text/plain\<close>, and the
  first again as a part that has no \<open>Content-Type\<close> header.
\<close>

definition png_upload :: UploadFile where
  "png_upload =
     \<lparr>file_filename = [97, 46, 112, 110, 103],
      content_type = Some [105, 109, 97, 103, 101, 47, 112, 110, 103],
      file_contents = [137, 80, 78, 71]\<rparr>"

definition text_upload :: UploadFile where
  "text_upload =
     \<lparr>file_filename = [97, 46, 116, 120, 116],
      content_type = Some [116, 101, 120, 116, 47, 112, 108, 97, 105, 110],
      file_contents = [104, 105]\<rparr>"

definition untyped_upload :: UploadFile where
  "untyped_upload =
     \<lparr>file_filename = [97, 46, 112, 110, 103],
      content_type = None,
      file_contents = [137, 80, 78, 71]\<rparr>"

text \<open>The request for \<open>http://h/a.png\<close>, and replies carrying the bytes of the upload.\<close>

definition png_request :: AnalysisRequest where
  "png_request =
     \<lparr>image_url = [104, 116, 116, 112, 58, 47, 47, 104, 47, 97, 46, 112, 110, 103]\<rparr>"

definition reply_with_status :: "int \<Rightarrow> http_reply" where
  "reply_with_status s = \<lparr>reply_status = s, content = [137, 80, 78, 71]\<rparr>"

text \<open>The crop name \<open>pumpkin\<close>.\<close>

definition pumpkin :: pystr where
  "pumpkin = [112, 117, 109, 112, 107, 105, 110]"

section \<open>Facts about the string operations\<close>

text \<open>\<open>sub in s\<close> holds exactly when \<open>s\<close> is some text, then \<open>sub\<close>, then some text.\<close>

lemma py_in_iff_sublist: "py_in sub s \<longleftrightarrow> sublist sub s"
  by (induction s) (auto simp: sublist_Cons_right)

lemma split_not_Nil: "split sep s \<noteq> []"
  by (induction s) (simp_all split: list.split)

lemma split_no_sep: "sep \<notin> set s \<Longrightarrow> split sep s = [s]"
  by (induction s) simp_all

lemma split_at_sep: "split sep (a @ sep # b) = split sep a @ split sep b"
proof (induction a)
  case Nil
  show ?case by simp
next
  case (Cons c a)
  obtain w ws where ws: "split sep a = w # ws"
    using split_not_Nil [of sep a] by (cases "split sep a") auto
  show ?case using Cons ws by simp
qed

lemma after_last_slash_no_slash: "slash \<notin> set url \<Longrightarrow> after_last_slash url = url"
proof -
  assume "slash \<notin> set url"
  then have "takeWhile (\<lambda>c. c \<noteq> slash) (rev url) = rev url"
    by auto
  then show ?thesis
    unfolding after_last_slash_def by (simp only: rev_rev_ident)
qed

lemma after_last_slash_append:
  assumes "slash \<notin> set b"
  shows "after_last_slash (a @ slash # b) = b"
proof -
  from assms have tw: "takeWhile (\<lambda>c. c \<noteq> slash) (rev b @ slash # rev a) = rev b"
    by (auto simp add: takeWhile_tail)
  show ?thesis
    unfolding after_last_slash_def rev_append rev.simps append_Cons append_Nil append_assoc
    by (simp only: tw rev_rev_ident)
qed

lemma last_split: "last (split slash url) = after_last_slash url"
proof (cases "slash \<in> set url")
  case False
  then show ?thesis
    by (simp add: split_no_sep after_last_slash_no_slash)
next
  case True
  then obtain a b where ab: "url = a @ slash # b" and b: "slash \<notin> set b"
    by (meson split_list_last)
  have "last (split slash url) = b"
    using b by (simp add: ab split_at_sep split_not_Nil split_no_sep)
  then show ?thesis
    using b by (simp add: ab after_last_slash_append)
qed

lemma after_last_slash_free: "slash \<notin> set (after_last_slash url)"
  by (auto simp: after_last_slash_def dest: set_takeWhileD)

lemma after_last_slash_decomp:
  assumes "slash \<in> set url"
  shows "\<exists>pre. url = pre @ [slash] @ after_last_slash url"
proof -
  from assms obtain a b where ab: "url = a @ slash # b" and b: "slash \<notin> set b"
    by (meson split_list_last)
  from b have "after_last_slash url = b"
    by (simp add: ab after_last_slash_append)
  with ab show ?thesis by auto
qed

lemma index_last_split: "index_last (split slash url) = Some (after_last_slash url)"
proof (cases "split slash url")
  case Nil
  then show ?thesis by (simp add: split_not_Nil)
next
  case (Cons w ws)
  then have "index_last (split slash url) = Some (last (split slash url))"
    by (simp add: index_last_def)
  then show ?thesis by (simp add: last_split)
qed

section \<open>Facts about floats and rounding\<close>

lemma rhe_near:
  "of_int (round_half_even q) \<le> q + 1 / 2" "q - 1 / 2 \<le> of_int (round_half_even q)"
  unfolding round_half_even_def Let_def by (auto simp: not_less) linarith+

lemma rhe_lower: "of_int a \<le> q \<Longrightarrow> a \<le> round_half_even q"
  unfolding round_half_even_def Let_def by (auto simp: le_floor_iff) linarith+

lemma rhe_upper:
  assumes "q \<le> of_int b"
  shows "round_half_even q \<le> b"
proof (cases "q = of_int b")
  case True
  then show ?thesis by (simp add: round_half_even_def)
next
  case False
  with assms have "q < of_int b" by simp
  then have "\<lfloor>q\<rfloor> < b" by (simp add: floor_less_iff)
  then show ?thesis
    unfolding round_half_even_def Let_def by auto
qed

lemma rhe_of_int: "round_half_even (of_int k) = k"
  by (simp add: round_half_even_def)

lemma exponent2_bounds:
  assumes "q \<noteq> 0"
  shows "2 powi (exponent2 q) \<le> \<bar>q\<bar>" and "\<bar>q\<bar> < 2 powi (exponent2 q + 1)"
proof -
  obtain a b where ab: "quotient_of \<bar>q\<bar> = (a, b)"
    by (cases "quotient_of \<bar>q\<bar>") auto
  then have b: "0 < b" and q: "\<bar>q\<bar> = of_int a / of_int b"
    by (auto simp: quotient_of_denom_pos quotient_of_div)
  from assms have "0 < \<bar>q\<bar>" by simp
  with q b have a: "0 < a"
    by (simp add: zero_less_divide_iff)
  define A where "A = bitlen a"
  define B where "B = bitlen b"
  have A: "2 ^ nat (A - 1) \<le> a" "a < 2 ^ nat A" and B: "2 ^ nat (B - 1) \<le> b" "b < 2 ^ nat B"
    using bitlen_bounds [OF a] bitlen_bounds [OF b] by (simp_all add: A_def B_def)
  have A1: "1 \<le> A" and B1: "1 \<le> B"
    using a b bitlen_eq_zero_iff [of a] bitlen_eq_zero_iff [of b] bitlen_nonneg [of a]
      bitlen_nonneg [of b] by (auto simp: A_def B_def)
  have "(of_int (2 ^ nat (A - 1)) :: rat) \<le> of_int a" "(of_int a :: rat) < of_int (2 ^ nat A)"
    using A by (simp_all only: of_int_le_iff of_int_less_iff)
  then have pa: "(2::rat) powi (A - 1) \<le> of_int a" "of_int a < (2::rat) powi A"
    using A1 by (simp_all add: power_int_nonneg_exp)
  have "(of_int (2 ^ nat (B - 1)) :: rat) \<le> of_int b" "(of_int b :: rat) < of_int (2 ^ nat B)"
    using B by (simp_all only: of_int_le_iff of_int_less_iff)
  then have pb: "(2::rat) powi (B - 1) \<le> of_int b" "of_int b < (2::rat) powi B"
    using B1 by (simp_all add: power_int_nonneg_exp)
  have "rat_of_int a / of_int b < 2 powi A / 2 powi (B - 1)"
    using pa(2) pb(1) a by (intro frac_less) simp_all
  also have "(2::rat) powi A / 2 powi (B - 1) = 2 powi (A - B + 1)"
    using power_int_diff [of "2::rat" A "B - 1"] by (simp add: algebra_simps)
  finally have up: "\<bar>q\<bar> < 2 powi (A - B + 1)"
    by (simp add: q)
  have "(2::rat) powi (A - 1) / 2 powi B < of_int a / of_int b"
    using pa(1) pb(2) b by (intro frac_less2) simp_all
  moreover have "(2::rat) powi (A - 1) / 2 powi B = 2 powi (A - B - 1)"
    using power_int_diff [of "2::rat" "A - 1" B] by (simp add: algebra_simps)
  ultimately have lo: "2 powi (A - B - 1) < \<bar>q\<bar>"
    by (simp add: q)
  have e: "exponent2 q = (if 2 powi (A - B) \<le> \<bar>q\<bar> then A - B else A - B - 1)"
    by (simp add: exponent2_def ab A_def B_def)
  show "2 powi (exponent2 q) \<le> \<bar>q\<bar>" using lo by (simp add: e)
  show "\<bar>q\<bar> < 2 powi (exponent2 q + 1)" using up by (auto simp: e not_le)
qed

lemma two_powi_less_iff: "(2::rat) powi m < 2 powi n \<longleftrightarrow> m < n"
proof
  assume l: "(2::rat) powi m < 2 powi n"
  show "m < n"
  proof (rule ccontr)
    assume "\<not> m < n"
    then have "(2::rat) powi n \<le> 2 powi m"
      by (intro power_int_increasing) simp_all
    with l show False by simp
  qed
next
  assume "m < n"
  then show "(2::rat) powi m < 2 powi n"
    by (intro power_int_strict_increasing) simp_all
qed

lemma two_powi_le_iff: "(2::rat) powi m \<le> 2 powi n \<longleftrightarrow> m \<le> n"
  using two_powi_less_iff [of n m] by (simp add: not_less [symmetric])

lemma exponent2_unique:
  assumes "2 powi k \<le> \<bar>q\<bar>" and "\<bar>q\<bar> < 2 powi (k + 1)"
  shows "exponent2 q = k"
proof -
  have "0 < \<bar>q\<bar>"
    using assms(1) zero_less_power_int [of "2::rat" k] by linarith
  then have q: "q \<noteq> 0" by simp
  from exponent2_bounds [OF q] assms
  have "(2::rat) powi (exponent2 q) < 2 powi (k + 1)" "(2::rat) powi k < 2 powi (exponent2 q + 1)"
    by linarith+
  then have "exponent2 q < k + 1" "k < exponent2 q + 1"
    by (simp_all add: two_powi_less_iff)
  then show ?thesis by simp
qed

lemma exponent2_less:
  assumes "q \<noteq> 0" and "\<bar>q\<bar> < 2 powi k"
  shows "exponent2 q < k"
proof -
  from exponent2_bounds(1) [OF assms(1)] assms(2)
  have "(2::rat) powi (exponent2 q) < 2 powi k" by linarith
  then show ?thesis by (simp add: two_powi_less_iff)
qed

lemma ulp_pos: "0 < ulp q"
  by (simp add: ulp_def)

lemma nearest_binary64_near: "\<bar>nearest_binary64 q - q\<bar> \<le> ulp q / 2"
proof -
  have "\<bar>of_int (round_half_even (q / ulp q)) - q / ulp q\<bar> \<le> 1 / 2"
    using rhe_near [of "q / ulp q"] by linarith
  then have "\<bar>of_int (round_half_even (q / ulp q)) - q / ulp q\<bar> * ulp q \<le> 1 / 2 * ulp q"
    using ulp_pos [of q] by (intro mult_right_mono) simp_all
  moreover have "\<bar>of_int (round_half_even (q / ulp q)) - q / ulp q\<bar> * ulp q
                 = \<bar>nearest_binary64 q - q\<bar>"
  proof -
    have "\<bar>of_int (round_half_even (q / ulp q)) - q / ulp q\<bar> * ulp q
          = \<bar>(of_int (round_half_even (q / ulp q)) - q / ulp q) * ulp q\<bar>"
      using ulp_pos [of q] by (simp add: abs_mult)
    also have "(of_int (round_half_even (q / ulp q)) - q / ulp q) * ulp q
               = nearest_binary64 q - q"
      using ulp_pos [of q] by (simp add: nearest_binary64_def left_diff_distrib)
    finally show ?thesis .
  qed
  ultimately show ?thesis by simp
qed

lemma nearest_binary64_on_grid:
  "of_int \<lfloor>nearest_binary64 q / ulp q\<rfloor> = nearest_binary64 q / ulp q"
  using ulp_pos [of q] by (simp add: nearest_binary64_def)

text \<open>The exponent of the spacing at \<open>q\<close> is at most \<open>c\<close> when \<open>\<bar>q\<bar> < 2 powi (c + 53)\<close>.\<close>

lemma ulp_exponent_le:
  assumes "q \<noteq> 0" and "\<bar>q\<bar> < 2 powi (c + 53)" and "- 1074 \<le> c"
  shows "max (exponent2 q) (- 1022) - 52 \<le> c"
  using exponent2_less [OF assms(1,2)] assms(3) by simp

lemma multiple_of_smaller_power:
  assumes "j \<le> c"
  shows "(of_int (n * 2 ^ nat (c - j)) :: rat) * 2 powi j = of_int n * 2 powi c"
proof -
  have "(2::rat) ^ nat (c - j) = 2 powi (c - j)"
    using assms by (simp add: power_int_nonneg_exp)
  moreover have "(2::rat) powi (c - j) * 2 powi j = 2 powi c"
    by (simp add: power_int_add [symmetric])
  ultimately have "(2::rat) ^ nat (c - j) * 2 powi j = 2 powi c"
    by simp
  then have "of_int n * ((2::rat) ^ nat (c - j) * 2 powi j) = of_int n * 2 powi c"
    by (simp only:)
  then show ?thesis by (simp add: mult.assoc)
qed

lemma divide_by_smaller_power:
  assumes "j \<le> c"
  shows "of_int n * 2 powi c / 2 powi j = (of_int (n * 2 ^ nat (c - j)) :: rat)"
  unfolding multiple_of_smaller_power [OF assms, symmetric] by simp

lemma nearest_binary64_le:
  assumes "q \<le> of_int n * 2 powi c" and "q \<noteq> 0" and "\<bar>q\<bar> < 2 powi (c + 53)" and "- 1074 \<le> c"
  shows "nearest_binary64 q \<le> of_int n * 2 powi c"
proof -
  define j where "j = max (exponent2 q) (- 1022) - 52"
  have u: "ulp q = 2 powi j" by (simp add: ulp_def j_def)
  have j: "j \<le> c" unfolding j_def by (rule ulp_exponent_le [OF assms(2-4)])
  have "q / ulp q \<le> of_int n * 2 powi c / ulp q"
    using assms(1) ulp_pos [of q] by (simp add: divide_right_mono)
  then have "q / ulp q \<le> of_int (n * 2 ^ nat (c - j))"
    by (simp only: u divide_by_smaller_power [OF j])
  then have "round_half_even (q / ulp q) \<le> n * 2 ^ nat (c - j)"
    by (rule rhe_upper)
  then have "(of_int (round_half_even (q / ulp q)) :: rat) \<le> of_int (n * 2 ^ nat (c - j))"
    by (simp only: of_int_le_iff)
  then have "of_int (round_half_even (q / ulp q)) * ulp q \<le> of_int (n * 2 ^ nat (c - j)) * ulp q"
    using ulp_pos [of q] by (intro mult_right_mono) simp_all
  also have "of_int (n * 2 ^ nat (c - j)) * ulp q = of_int n * 2 powi c"
    unfolding u by (rule multiple_of_smaller_power [OF j])
  finally show ?thesis by (simp add: nearest_binary64_def)
qed

lemma nearest_binary64_ge:
  assumes "of_int n * 2 powi c \<le> q" and "q \<noteq> 0" and "\<bar>q\<bar> < 2 powi (c + 53)" and "- 1074 \<le> c"
  shows "of_int n * 2 powi c \<le> nearest_binary64 q"
proof -
  define j where "j = max (exponent2 q) (- 1022) - 52"
  have u: "ulp q = 2 powi j" by (simp add: ulp_def j_def)
  have j: "j \<le> c" unfolding j_def by (rule ulp_exponent_le [OF assms(2-4)])
  have "of_int n * 2 powi c / ulp q \<le> q / ulp q"
    using assms(1) ulp_pos [of q] by (simp add: divide_right_mono)
  then have "of_int (n * 2 ^ nat (c - j)) \<le> q / ulp q"
    by (simp only: u divide_by_smaller_power [OF j])
  then have "n * 2 ^ nat (c - j) \<le> round_half_even (q / ulp q)"
    by (rule rhe_lower)
  then have "(of_int (n * 2 ^ nat (c - j)) :: rat) \<le> of_int (round_half_even (q / ulp q))"
    by (simp only: of_int_le_iff)
  then have "of_int (n * 2 ^ nat (c - j)) * ulp q \<le> of_int (round_half_even (q / ulp q)) * ulp q"
    using ulp_pos [of q] by (intro mult_right_mono) simp_all
  moreover have "of_int (n * 2 ^ nat (c - j)) * ulp q = of_int n * 2 powi c"
    unfolding u by (rule multiple_of_smaller_power [OF j])
  ultimately have "of_int n * 2 powi c \<le> of_int (round_half_even (q / ulp q)) * ulp q"
    by (simp only:)
  then show ?thesis by (simp add: nearest_binary64_def)
qed

lemma nearest_binary64_0: "nearest_binary64 0 = 0"
  by (simp add: nearest_binary64_def rhe_of_int [of 0, simplified])


lemma rhe_eval:
  assumes "of_int k - 1 / 2 < q" and "q < of_int k + 1 / 2"
  shows "round_half_even q = k"
proof -
  from rhe_near [of q] assms
  have "rat_of_int (round_half_even q) < of_int (k + 1)" "rat_of_int (k - 1) < of_int (round_half_even q)"
    by simp_all
  then have "round_half_even q < k + 1" "k - 1 < round_half_even q"
    by (simp_all only: of_int_less_iff)
  then show ?thesis by simp
qed

lemma rhe_tie:
  assumes "q = of_int k + 1 / 2"
  shows "round_half_even q = (if even k then k else k + 1)"
proof -
  have "\<lfloor>q\<rfloor> = k"
    unfolding assms by (rule floor_unique) simp_all
  then show ?thesis
    by (simp add: round_half_even_def assms)
qed

lemma nearest_binary64_eval:
  assumes "2 powi e \<le> \<bar>q\<bar>" and "\<bar>q\<bar> < 2 powi (e + 1)" and "- 1022 \<le> e"
    and "of_int m - 1 / 2 < q / 2 powi (e - 52)" and "q / 2 powi (e - 52) < of_int m + 1 / 2"
  shows "nearest_binary64 q = of_int m * 2 powi (e - 52)"
proof -
  have "exponent2 q = e" by (rule exponent2_unique [OF assms(1,2)])
  with assms(3) have u: "ulp q = 2 powi (e - 52)"
    by (simp add: ulp_def max_def)
  show ?thesis
    unfolding nearest_binary64_def u by (simp only: rhe_eval [OF assms(4,5)])
qed

lemma decimal_round2_near: "\<bar>decimal_round2 q - q\<bar> \<le> 1 / 200"
  using rhe_near [of "q * 100"] unfolding decimal_round2_def by linarith

lemma decimal_round2_hundredths:
  "of_int \<lfloor>decimal_round2 q * 100\<rfloor> = decimal_round2 q * 100"
  by (simp add: decimal_round2_def)

lemma decimal_round2_le:
  assumes "q \<le> of_int n"
  shows "decimal_round2 q \<le> of_int n"
proof -
  from assms have "q * 100 \<le> of_int (n * 100)" by simp
  then have "round_half_even (q * 100) \<le> n * 100" by (rule rhe_upper)
  then have "rat_of_int (round_half_even (q * 100)) \<le> of_int (n * 100)"
    by (simp only: of_int_le_iff)
  then show ?thesis by (simp add: decimal_round2_def)
qed

lemma decimal_round2_ge:
  assumes "of_int n \<le> q"
  shows "of_int n \<le> decimal_round2 q"
proof -
  from assms have "of_int (n * 100) \<le> q * 100" by simp
  then have "n * 100 \<le> round_half_even (q * 100)" by (rule rhe_lower)
  then have "rat_of_int (n * 100) \<le> of_int (round_half_even (q * 100))"
    by (simp only: of_int_le_iff)
  then show ?thesis by (simp add: decimal_round2_def)
qed

text \<open>Rounding keeps a value between 0 and 100 there.\<close>

lemma round2_percent:
  assumes "0 \<le> q" and "q \<le> 100"
  shows "0 \<le> nearest_binary64 (decimal_round2 q)" and "nearest_binary64 (decimal_round2 q) \<le> 100"
proof -
  define d where "d = decimal_round2 q"
  have d: "0 \<le> d" "d \<le> 100"
    using decimal_round2_ge [of 0 q] decimal_round2_le [of q 100] assms by (simp_all add: d_def)
  have h: "(100::rat) = of_int (100 * 2 ^ 46) * 2 powi (- 46)"
    by simp
  have z: "(0::rat) = of_int 0 * 2 powi (- 46)"
    by simp
  show "0 \<le> nearest_binary64 (decimal_round2 q)"
  proof (cases "d = 0")
    case True
    then show ?thesis by (simp add: d_def [symmetric] nearest_binary64_0)
  next
    case False
    have "of_int 0 * 2 powi (- 46) \<le> nearest_binary64 d"
      using d False by (intro nearest_binary64_ge) simp_all
    then show ?thesis by (simp add: d_def)
  qed
  show "nearest_binary64 (decimal_round2 q) \<le> 100"
  proof (cases "d = 0")
    case True
    then show ?thesis by (simp add: d_def [symmetric] nearest_binary64_0)
  next
    case False
    have "nearest_binary64 d \<le> of_int (100 * 2 ^ 46) * 2 powi (- 46)"
      using d False by (intro nearest_binary64_le) simp_all
    then show ?thesis by (simp add: d_def)
  qed
qed


lemma two_powi_53: "(2::rat) powi (j + 53) = of_int (2 ^ 53) * 2 powi j"
  by (simp add: power_int_add)

lemma on_grid:
  assumes "\<bar>m\<bar> \<le> 2 ^ 53" and "- 1074 \<le> j"
  shows "of_int \<lfloor>(of_int m * 2 powi j) / ulp (of_int m * 2 powi j)\<rfloor>
         = (of_int m * 2 powi j) / ulp (of_int m * 2 powi j)"
proof -
  define y :: rat where "y = of_int m * 2 powi j"
  have ay: "\<bar>y\<bar> = of_int \<bar>m\<bar> * 2 powi j"
    by (simp add: y_def abs_mult)
  have "of_int \<lfloor>y / ulp y\<rfloor> = y / ulp y"
  proof (cases "\<bar>m\<bar> = 2 ^ 53")
    case True
    then have ay': "\<bar>y\<bar> = 2 powi (j + 53)"
      by (simp only: ay two_powi_53)
    have "exponent2 y = j + 53"
      by (rule exponent2_unique) (simp_all add: ay' two_powi_less_iff)
    with assms(2) have u: "ulp y = 2 powi (j + 1)"
      by (simp add: ulp_def max_def add.commute)
    have "(2::rat) powi (j + 1) = 2 * 2 powi j"
      by (simp add: power_int_add)
    then have "y / ulp y = y / (2 * 2 powi j)"
      by (simp only: u)
    also have "\<dots> = of_int m / 2"
      by (simp add: y_def)
    finally have "y / ulp y = of_int m / 2" .
    moreover from True have "m = 2 * 2 ^ 52 \<or> m = 2 * (- (2 ^ 52))"
      by (auto simp: abs_if split: if_splits)
    then obtain k where "m = 2 * k" by blast
    ultimately have "y / ulp y = of_int k"
      by simp
    then show ?thesis by (simp only: floor_of_int)
  next
    case False
    with assms(1) have m: "\<bar>m\<bar> < 2 ^ 53" by simp
    show ?thesis
    proof (cases "y = 0")
      case True
      then show ?thesis by simp
    next
      case False
      have "rat_of_int \<bar>m\<bar> < of_int (2 ^ 53)"
        using m by (simp only: of_int_less_iff)
      then have "\<bar>y\<bar> < 2 powi (j + 53)"
        unfolding ay two_powi_53 by (intro mult_strict_right_mono) simp_all
      from ulp_exponent_le [OF False this assms(2)]
      have le: "max (exponent2 y) (- 1022) - 52 \<le> j" .
      define J where "J = max (exponent2 y) (- 1022) - 52"
      from le have J: "J \<le> j" by (simp add: J_def)
      have "y / ulp y = of_int m * 2 powi j / 2 powi J"
        by (simp add: ulp_def J_def y_def)
      also have "\<dots> = of_int (m * 2 ^ nat (j - J))"
        by (rule divide_by_smaller_power [OF J])
      finally show ?thesis by (simp only: floor_of_int)
    qed
  qed
  then show ?thesis by (simp only: y_def)
qed

lemma max_binary64_less: "max_binary64 < 2 powi (971 + 53)"
  unfolding max_binary64_def two_powi_53
  by (intro mult_strict_right_mono) simp_all

lemma max_binary64_int: "max_binary64 = of_int ((2 ^ 53 - 1) * 2 ^ 971)"
  unfolding max_binary64_def by (simp add: power_int_nonneg_exp del: power_int_numeral)

lemma nearest_binary64_abs_le:
  assumes "\<bar>d\<bar> \<le> max_binary64"
  shows "\<bar>nearest_binary64 d\<bar> \<le> max_binary64"
proof (cases "d = 0")
  case True
  with assms show ?thesis by (simp add: nearest_binary64_0)
next
  case False
  from assms max_binary64_less have r: "\<bar>d\<bar> < 2 powi (971 + 53)" by linarith
  have "nearest_binary64 d \<le> of_int (2 ^ 53 - 1) * 2 powi 971"
    using assms by (intro nearest_binary64_le [OF _ False r]) (simp_all add: max_binary64_def)
  moreover have "of_int (- (2 ^ 53 - 1)) * 2 powi 971 \<le> nearest_binary64 d"
    using assms by (intro nearest_binary64_ge [OF _ False r]) (simp_all add: max_binary64_def)
  ultimately show ?thesis
    by (simp add: max_binary64_def abs_le_iff)
qed

lemma nearest_binary64_mantissa:
  assumes "d \<noteq> 0"
  shows "\<bar>round_half_even (d / ulp d)\<bar> \<le> 2 ^ 53"
proof -
  define j where "j = max (exponent2 d) (- 1022) - 52"
  have u: "ulp d = 2 powi j" by (simp add: ulp_def j_def)
  have "\<bar>d\<bar> < 2 powi (exponent2 d + 1)"
    by (rule exponent2_bounds(2) [OF assms])
  also have "(2::rat) powi (exponent2 d + 1) \<le> 2 powi (j + 53)"
    by (simp add: two_powi_le_iff j_def)
  finally have "\<bar>d\<bar> < of_int (2 ^ 53) * 2 powi j"
    by (simp only: two_powi_53)
  then have "\<bar>d\<bar> / 2 powi j < of_int (2 ^ 53)"
    by (simp add: pos_divide_less_eq)
  then have "\<bar>d / ulp d\<bar> < of_int (2 ^ 53)"
    by (simp add: u)
  then have "d / ulp d \<le> of_int (2 ^ 53)" "of_int (- (2 ^ 53)) \<le> d / ulp d"
    unfolding of_int_minus by linarith+
  then have "round_half_even (d / ulp d) \<le> 2 ^ 53" "- (2 ^ 53) \<le> round_half_even (d / ulp d)"
    by (auto intro: rhe_upper rhe_lower)
  then show ?thesis by (simp add: abs_le_iff)
qed

lemma is_binary64_0: "is_binary64 0"
  by (simp add: is_binary64_def max_binary64_def)

lemma nearest_binary64_is_binary64:
  assumes "\<bar>d\<bar> \<le> max_binary64"
  shows "is_binary64 (nearest_binary64 d)"
proof (cases "d = 0")
  case True
  then show ?thesis by (simp add: nearest_binary64_0 is_binary64_0)
next
  case False
  have j: "- 1074 \<le> max (exponent2 d) (- 1022) - 52" by simp
  have "nearest_binary64 d
        = of_int (round_half_even (d / ulp d)) * 2 powi (max (exponent2 d) (- 1022) - 52)"
    by (simp add: nearest_binary64_def ulp_def)
  with on_grid [OF nearest_binary64_mantissa [OF False] j]
  have "of_int \<lfloor>nearest_binary64 d / ulp (nearest_binary64 d)\<rfloor>
        = nearest_binary64 d / ulp (nearest_binary64 d)"
    by (simp only:)
  with nearest_binary64_abs_le [OF assms] show ?thesis
    by (simp add: is_binary64_def)
qed

lemma decimal_round2_abs_le:
  assumes "\<bar>q\<bar> \<le> max_binary64"
  shows "\<bar>decimal_round2 q\<bar> \<le> max_binary64"
proof -
  from assms have "q \<le> of_int ((2 ^ 53 - 1) * 2 ^ 971)" "of_int (- ((2 ^ 53 - 1) * 2 ^ 971)) \<le> q"
    unfolding max_binary64_int by (simp_all only: abs_le_iff of_int_minus) linarith+
  then have "decimal_round2 q \<le> of_int ((2 ^ 53 - 1) * 2 ^ 971)"
    "of_int (- ((2 ^ 53 - 1) * 2 ^ 971)) \<le> decimal_round2 q"
    by (simp_all only: decimal_round2_le decimal_round2_ge)
  then show ?thesis
    unfolding max_binary64_int of_int_minus by linarith
qed

lemma round2_is_binary64:
  assumes "is_binary64 q"
  shows "is_binary64 (nearest_binary64 (decimal_round2 q))"
  using assms by (intro nearest_binary64_is_binary64 decimal_round2_abs_le) (simp add: is_binary64_def)

text \<open>An exact tie is rounded to the even neighbour.\<close>

lemma rhe_tie_even:
  assumes "\<bar>of_int (round_half_even x) - x\<bar> = 1 / 2"
  shows "even (round_half_even x)"
proof -
  define f where "f = \<lfloor>x\<rfloor>"
  define t where "t = x - of_int f"
  have t: "0 \<le> t" "t < 1"
    unfolding t_def f_def by linarith+
  have x: "x = of_int f + t" by (simp add: t_def)
  have r: "round_half_even x = (if t < 1 / 2 then f else if 1 / 2 < t then f + 1
                                  else if even f then f else f + 1)"
    by (simp add: round_half_even_def Let_def f_def t_def)
  consider "t < 1 / 2" | "1 / 2 < t" | "t = 1 / 2" by linarith
  then show ?thesis
  proof cases
    case 1
    then have "round_half_even x = f" by (simp add: r)
    with assms have "\<bar>rat_of_int f - x\<bar> = 1 / 2" by simp
    with 1 t show ?thesis unfolding x by linarith
  next
    case 2
    then have "round_half_even x = f + 1" by (simp add: r)
    with assms have "\<bar>rat_of_int (f + 1) - x\<bar> = 1 / 2" by simp
    with 2 t show ?thesis unfolding x of_int_add of_int_1 by linarith
  next
    case 3
    then show ?thesis by (simp add: r)
  qed
qed

lemma decimal_round2_tie_even:
  assumes "\<bar>decimal_round2 q - q\<bar> = 1 / 200"
  shows "even \<lfloor>decimal_round2 q * 100\<rfloor>"
proof -
  have "\<bar>of_int (round_half_even (q * 100)) - q * 100\<bar> = 1 / 2"
    using assms unfolding decimal_round2_def by linarith
  then have "even (round_half_even (q * 100))"
    by (rule rhe_tie_even)
  then show ?thesis by (simp add: decimal_round2_def)
qed

lemma nearest_binary64_tie_even:
  assumes "\<bar>nearest_binary64 d - d\<bar> = ulp d / 2"
  shows "even \<lfloor>nearest_binary64 d / ulp d\<rfloor>"
proof -
  have u: "0 < ulp d" by (rule ulp_pos)
  have "\<bar>of_int (round_half_even (d / ulp d)) - d / ulp d\<bar> * ulp d
        = \<bar>(of_int (round_half_even (d / ulp d)) - d / ulp d) * ulp d\<bar>"
    using u by (simp add: abs_mult)
  also have "(of_int (round_half_even (d / ulp d)) - d / ulp d) * ulp d = nearest_binary64 d - d"
    using u by (simp add: nearest_binary64_def left_diff_distrib)
  finally have "\<bar>of_int (round_half_even (d / ulp d)) - d / ulp d\<bar> * ulp d = 1 / 2 * ulp d"
    using assms by simp
  then have "\<bar>of_int (round_half_even (d / ulp d)) - d / ulp d\<bar> = 1 / 2"
    using u by (simp only: mult_cancel_right) simp
  then have "even (round_half_even (d / ulp d))"
    by (rule rhe_tie_even)
  then show ?thesis
    using u by (simp add: nearest_binary64_def)
qed

text \<open>What \<open>round(x, 2)\<close> returns is \<open>x\<close> rounded to 2 decimal places, and a float.\<close>

lemma py_round2_rounded: "\<exists>d. rounded_to_2_places d conf (py_round2 conf)"
proof (cases conf)
  case (Finite q)
  have "rounded_to_2_places (decimal_round2 q) (Finite q) (Finite (nearest_binary64 (decimal_round2 q)))"
    using decimal_round2_hundredths [of q] decimal_round2_near [of q]
      decimal_round2_tie_even [of q]
      nearest_binary64_on_grid [of "decimal_round2 q"] nearest_binary64_near [of "decimal_round2 q"]
      nearest_binary64_tie_even [of "decimal_round2 q"]
    by simp
  with Finite show ?thesis by auto
qed simp_all

lemma py_round2_is_float: "is_float conf \<Longrightarrow> is_float (py_round2 conf)"
  by (cases conf) (simp_all add: round2_is_binary64)

lemma py_round2_in_range:
  assumes "in_percent_range conf"
  shows "in_percent_range (py_round2 conf)"
proof (cases conf)
  case (Finite q)
  with assms have "0 \<le> q" "q \<le> 100" by simp_all
  from round2_percent [OF this] Finite show ?thesis by simp
qed (use assms in simp_all)

text \<open>Values of \<open>round(x, 2)\<close>: 98.0, 150.0 and 98.125, a tie that goes to 98.12.\<close>

lemma decimal_round2_of_int: "decimal_round2 (of_int k) = of_int k"
proof -
  have "round_half_even (of_int k * 100) = k * 100"
    using rhe_of_int [of "k * 100"] by simp
  then show ?thesis by (simp add: decimal_round2_def)
qed

lemma py_round2_98: "py_round2 (Finite 98) = Finite 98"
proof -
  have d: "decimal_round2 98 = 98"
    using decimal_round2_of_int [of 98] by simp
  have "nearest_binary64 98 = of_int (98 * 2 ^ 46) * 2 powi (6 - 52)"
    by (rule nearest_binary64_eval) simp_all
  then show ?thesis by (simp add: d)
qed

lemma py_round2_150: "py_round2 (Finite 150) = Finite 150"
proof -
  have d: "decimal_round2 150 = 150"
    using decimal_round2_of_int [of 150] by simp
  have "nearest_binary64 150 = of_int (150 * 2 ^ 45) * 2 powi (7 - 52)"
    by (rule nearest_binary64_eval) simp_all
  then show ?thesis by (simp add: d)
qed

lemma py_round2_98125:
  "py_round2 (Finite (785 / 8)) = Finite (863072647339049 / 8796093022208)"
proof -
  have "round_half_even (785 / 8 * 100) = (if even (9812::int) then 9812 else 9812 + 1)"
    by (rule rhe_tie) simp
  then have d: "decimal_round2 (785 / 8) = 2453 / 25"
    by (simp add: decimal_round2_def)
  have "nearest_binary64 (2453 / 25) = of_int 6904581178712392 * 2 powi (6 - 52)"
    by (rule nearest_binary64_eval) simp_all
  then show ?thesis by (simp add: d)
qed

lemma is_binary64_98125: "is_binary64 (785 / 8)"
proof -
  have "exponent2 (785 / 8) = 6"
    by (rule exponent2_unique) simp_all
  then have u: "ulp (785 / 8) = 2 powi (- 46)"
    by (simp add: ulp_def)
  have "(785 / 8 :: rat) \<le> of_int (2 ^ 53 - 1) * 2 powi 0"
    by simp
  also have "\<dots> \<le> max_binary64"
    unfolding max_binary64_def by (intro mult_left_mono power_int_increasing) simp_all
  finally show ?thesis
    by (simp add: is_binary64_def u)
qed

section \<open>The cases of the handlers\<close>

lemma upload_without_type:
  assumes "content_type file = None"
  shows "diagnose_crop env crop file = (Inl internal_server_error, [])"
  using assms by (simp add: diagnose_crop_def)

lemma upload_non_image_type:
  assumes "content_type file = Some ct" and "\<not> startswith ct image_prefix"
  shows "diagnose_crop env crop file
           = (Inl \<lparr>status_code = 400, detail = only_images_text\<rparr>, [])"
  using assms by (simp add: diagnose_crop_def)

lemma text_upload_400:
  "diagnose_crop env crop text_upload
     = (Inl \<lparr>status_code = 400, detail = only_images_text\<rparr>, [])"
  by (rule upload_non_image_type [of _ "[116, 101, 120, 116, 47, 112, 108, 97, 105, 110]"])
     (simp_all add: text_upload_def startswith_def image_prefix_def)

lemma upload_success:
  assumes "content_type file = Some ct" and "startswith ct image_prefix"
    and "predict_disease env crop (file_contents file) = (info, conf, error)"
    and "error = None \<or> error = Some []"
  shows "diagnose_crop env crop file =
           (Inr \<lparr>filename = file_filename file, confidence = py_round2 conf,
                 disease_info = info\<rparr>,
            [Predict crop (file_contents file)])"
  using assms by (auto simp: diagnose_crop_def Let_def)

lemma upload_error:
  assumes "content_type file = Some ct" and "startswith ct image_prefix"
    and "predict_disease env crop (file_contents file) = (info, conf, Some e)"
    and "e \<noteq> []"
  shows "diagnose_crop env crop file =
           (Inl \<lparr>status_code =
                   (if sublist unsupported_marker e \<or> sublist model_missing_marker e
                       \<or> sublist load_failure_marker e then 404 else 500),
                 detail = e\<rparr>,
            [Predict crop (file_contents file)])"
  using assms by (simp add: diagnose_crop_def py_in_iff_sublist Let_def)

lemma fetched_bytes_None:
  assumes "fetched_bytes env request = None"
  shows "\<exists>e. diagnose_by_url env crop request =
           (Inl \<lparr>status_code = 400, detail = download_failed_text @ e\<rparr>,
            [Http_get (image_url request)])"
  using assms
  by (auto simp: fetched_bytes_def diagnose_by_url_def Let_def split: sum.splits option.splits)

lemma url_invalid_image:
  assumes "fetched_bytes env request = Some b"
    and "image_verify env b = Some e"
  shows "diagnose_by_url env crop request =
           (Inl \<lparr>status_code = 400, detail = invalid_image_text @ e\<rparr>,
            [Http_get (image_url request), Image_verify b])"
  using assms
  by (auto simp: fetched_bytes_def diagnose_by_url_def Let_def split: sum.splits option.splits)

lemma url_success:
  assumes "fetched_bytes env request = Some b"
    and "image_verify env b = None"
    and "predict_disease env crop b = (info, conf, error)"
    and "error = None \<or> error = Some []"
  shows "diagnose_by_url env crop request =
           (Inr \<lparr>filename = after_last_slash (image_url request),
                 confidence = py_round2 conf, disease_info = info\<rparr>,
            [Http_get (image_url request), Image_verify b, Predict crop b])"
  using assms
  by (auto simp: fetched_bytes_def diagnose_by_url_def Let_def index_last_split
           split: sum.splits option.splits)

lemma url_error:
  assumes "fetched_bytes env request = Some b"
    and "image_verify env b = None"
    and "predict_disease env crop b = (info, conf, Some e)"
    and "e \<noteq> []"
  shows "diagnose_by_url env crop request =
           (Inl \<lparr>status_code =
                   (if sublist unsupported_marker e \<or> sublist model_missing_marker e
                       \<or> sublist load_failure_marker e then 404 else 500),
                 detail = e\<rparr>,
            [Http_get (image_url request), Image_verify b, Predict crop b])"
  using assms
  by (auto simp: fetched_bytes_def diagnose_by_url_def Let_def index_last_split py_in_iff_sublist
           split: sum.splits option.splits)

lemma url_fetch_error:
  assumes "requests_get env (image_url request) = Inl e
           \<or> (\<exists>r. requests_get env (image_url request) = Inr r
                    \<and> 400 \<le> reply_status r \<and> reply_status r < 600)"
  shows "response_status (fst (diagnose_by_url env crop request)) = 400
         \<and> snd (diagnose_by_url env crop request) = [Http_get (image_url request)]"
proof -
  from assms have "fetched_bytes env request = None"
    by (auto simp: fetched_bytes_def raise_for_status_def)
  from fetched_bytes_None [OF this, of crop] show ?thesis by auto
qed

lemma url_log_order:
  "\<exists>b. prefix (snd (diagnose_by_url env crop request))
         [Http_get (image_url request), Image_verify b, Predict crop b]"
proof (cases "fetched_bytes env request")
  case None
  from fetched_bytes_None [OF this, of crop] show ?thesis by auto
next
  case (Some b)
  show ?thesis
  proof (cases "image_verify env b")
    case None
    obtain info conf error where p: "predict_disease env crop b = (info, conf, error)"
      by (cases "predict_disease env crop b") auto
    show ?thesis
    proof (cases "error = None \<or> error = Some []")
      case True
      from url_success [OF Some None p True] show ?thesis by auto
    next
      case False
      then obtain e where e: "error = Some e" "e \<noteq> []" by auto
      from url_error [OF Some None p [unfolded e(1)] e(2)] show ?thesis by auto
    qed
  next
    case (Some e)
    from url_invalid_image [OF \<open>fetched_bytes env request = Some b\<close> Some, of crop]
    show ?thesis by (auto simp: prefix_def)
  qed
qed

lemma fixed_env_fetched:
  "\<not> (400 \<le> s \<and> s < 600) \<Longrightarrow>
   fetched_bytes (fixed_env p (Inr (reply_with_status s)) v) request = Some [137, 80, 78, 71]"
  by (simp add: fetched_bytes_def fixed_env_def raise_for_status_def reply_with_status_def)

lemma fixed_env_simps:
  "predict_disease (fixed_env p g v) crop b = p"
  "image_verify (fixed_env p g v) b = v"
  "requests_get (fixed_env p g v) u = g"
  by (simp_all add: fixed_env_def)

lemma png_upload_simps:
  "content_type png_upload = Some [105, 109, 97, 103, 101, 47, 112, 110, 103]"
  "startswith [105, 109, 97, 103, 101, 47, 112, 110, 103] image_prefix"
  "file_contents png_upload = [137, 80, 78, 71]"
  "file_filename png_upload = [97, 46, 112, 110, 103]"
  by (simp_all add: startswith_def png_upload_def image_prefix_def)

lemma png_request_filename: "after_last_slash (image_url png_request) = [97, 46, 112, 110, 103]"
  by (simp add: after_last_slash_def png_request_def slash_def)

section \<open>The status of a prediction error\<close>

text \<open>
  C1. For every non-empty error string that the prediction collaborator returns, both
  endpoints choose the status by the markers the string contains: 404 when it contains
  the unsupported-crop marker, the model-file-missing marker or the load-failure marker,
  500 otherwise; the detail of the response is the collaborator's error string. For the
  upload endpoint the prediction is reached when the content type starts with
  \<open>"image/"\<close>, for the URL endpoint when the fetch and the image check have passed.
\<close>

theorem prediction_error_status:
  assumes "e \<noteq> []"
  shows "(content_type file = Some ct \<and> startswith ct image_prefix
          \<and> predict_disease env crop (file_contents file) = (info, conf, Some e)
          \<longrightarrow> fst (diagnose_crop env crop file) =
                Inl \<lparr>status_code =
                       (if sublist unsupported_marker e \<or> sublist model_missing_marker e
                           \<or> sublist load_failure_marker e then 404 else 500),
                     detail = e\<rparr>)
       \<and> (fetched_bytes env request = Some b \<and> image_verify env b = None
          \<and> predict_disease env crop b = (info, conf, Some e)
          \<longrightarrow> fst (diagnose_by_url env crop request) =
                Inl \<lparr>status_code =
                       (if sublist unsupported_marker e \<or> sublist model_missing_marker e
                           \<or> sublist load_failure_marker e then 404 else 500),
                     detail = e\<rparr>)"
proof (intro conjI impI)
  assume "content_type file = Some ct \<and> startswith ct image_prefix
          \<and> predict_disease env crop (file_contents file) = (info, conf, Some e)"
  then show "fst (diagnose_crop env crop file) =
                Inl \<lparr>status_code =
                       (if sublist unsupported_marker e \<or> sublist model_missing_marker e
                           \<or> sublist load_failure_marker e then 404 else 500),
                     detail = e\<rparr>"
    using upload_error [of "file" ct env crop info conf e] assms by simp
next
  assume "fetched_bytes env request = Some b \<and> image_verify env b = None
          \<and> predict_disease env crop b = (info, conf, Some e)"
  then show "fst (diagnose_by_url env crop request) =
                Inl \<lparr>status_code =
                       (if sublist unsupported_marker e \<or> sublist model_missing_marker e
                           \<or> sublist load_failure_marker e then 404 else 500),
                     detail = e\<rparr>"
    using url_error [of env request b crop info conf e] assms by simp
qed

theorem prediction_error_status_witness:
  "fst (diagnose_crop
          (fixed_env (some_info, Finite 0, Some load_failure_marker)
             (Inr (reply_with_status 200)) None) pumpkin png_upload)
     = Inl \<lparr>status_code = 404, detail = load_failure_marker\<rparr>
   \<and> fst (diagnose_by_url
          (fixed_env (some_info, Finite 0, Some load_failure_marker)
             (Inr (reply_with_status 200)) None) pumpkin png_request)
     = Inl \<lparr>status_code = 404, detail = load_failure_marker\<rparr>
   \<and> fst (diagnose_crop
          (fixed_env (some_info, Finite 0, Some [111, 111, 112, 115])
             (Inr (reply_with_status 200)) None) pumpkin png_upload)
     = Inl \<lparr>status_code = 500, detail = [111, 111, 112, 115]\<rparr>
   \<and> fst (diagnose_by_url
          (fixed_env (some_info, Finite 0, Some [111, 111, 112, 115])
             (Inr (reply_with_status 200)) None) pumpkin png_request)
     = Inl \<lparr>status_code = 500, detail = [111, 111, 112, 115]\<rparr>"
proof -
  have ne: "load_failure_marker \<noteq> []" "[111, 111, 112, 115] \<noteq> ([] :: pystr)"
    by (simp_all add: load_failure_marker_def)
  have no: "\<not> sublist unsupported_marker [111, 111, 112, 115]"
    "\<not> sublist model_missing_marker [111, 111, 112, 115]"
    "\<not> sublist load_failure_marker [111, 111, 112, 115]"
    by (simp_all add: py_in_iff_sublist [symmetric] unsupported_marker_def
        model_missing_marker_def load_failure_marker_def)
  have f: "fetched_bytes (fixed_env p (Inr (reply_with_status 200)) None) png_request
             = Some [137, 80, 78, 71]" for p
    by (simp add: fixed_env_fetched)
  show ?thesis
    using prediction_error_status [OF ne(1),
        of png_upload "[105, 109, 97, 103, 101, 47, 112, 110, 103]"
           "fixed_env (some_info, Finite 0, Some load_failure_marker)
             (Inr (reply_with_status 200)) None" pumpkin some_info "Finite 0"
           png_request "[137, 80, 78, 71]"]
      prediction_error_status [OF ne(2),
        of png_upload "[105, 109, 97, 103, 101, 47, 112, 110, 103]"
           "fixed_env (some_info, Finite 0, Some [111, 111, 112, 115])
             (Inr (reply_with_status 200)) None" pumpkin some_info "Finite 0"
           png_request "[137, 80, 78, 71]"]
    by (simp add: f no fixed_env_simps png_upload_simps)
qed

section \<open>An upload without a content type\<close>

text \<open>
  C2. An upload whose content type does not start with \<open>"image/"\<close> is to be answered with
  400, the prediction collaborator not being called, and for a content type that is
  present the handler does so (\<open>upload_non_image_type\<close>). For an uploaded part without a
  \<open>Content-Type\<close> header the content type is \<open>None\<close>: the guard raises instead of
  answering, and the response is 500. The prediction collaborator is not called.
\<close>

theorem upload_without_content_type_500:
  "content_type untyped_upload = None
   \<and> diagnose_crop (fixed_env (some_info, Finite 98, None) (Inr (reply_with_status 200)) None)
        pumpkin untyped_upload = (Inl internal_server_error, [])
   \<and> response_status (fst (diagnose_crop
        (fixed_env (some_info, Finite 98, None) (Inr (reply_with_status 200)) None)
        pumpkin untyped_upload)) = 500"
proof -
  have n: "content_type untyped_upload = None"
    by (simp add: untyped_upload_def)
  from upload_without_type [OF n] n show ?thesis
    by (simp add: internal_server_error_def)
qed

section \<open>A reply that is neither 2xx nor an error status\<close>

text \<open>
  C3. A fetch that raises ends in a 400 with neither the image check nor the prediction
  reached (\<open>url_fetch_error\<close>), and the comment at \<open>raise_for_status\<close> has every reply that
  is not 2xx raise. \<open>raise_for_status\<close> raises for the statuses 400 to 599 only. Here the
  remote server answers 300 with the bytes of an image: the handler checks the image,
  calls the prediction and answers 200.
\<close>

theorem status_300_reply_is_diagnosed:
  "\<not> (200 \<le> reply_status (reply_with_status 300) \<and> reply_status (reply_with_status 300) < 300)
   \<and> requests_get (fixed_env (some_info, Finite 98, None) (Inr (reply_with_status 300)) None)
        (image_url png_request) = Inr (reply_with_status 300)
   \<and> diagnose_by_url (fixed_env (some_info, Finite 98, None) (Inr (reply_with_status 300)) None)
        pumpkin png_request
     = (Inr \<lparr>filename = [97, 46, 112, 110, 103], confidence = Finite 98,
             disease_info = some_info\<rparr>,
        [Http_get (image_url png_request), Image_verify [137, 80, 78, 71],
         Predict pumpkin [137, 80, 78, 71]])
   \<and> response_status (fst (diagnose_by_url
        (fixed_env (some_info, Finite 98, None) (Inr (reply_with_status 300)) None)
        pumpkin png_request)) = 200"
proof -
  have f: "fetched_bytes (fixed_env (some_info, Finite 98, None) (Inr (reply_with_status 300)) None)
             png_request = Some [137, 80, 78, 71]"
    by (simp add: fixed_env_fetched)
  have v: "image_verify (fixed_env (some_info, Finite 98, None) (Inr (reply_with_status 300)) None)
             [137, 80, 78, 71] = None"
    by (simp add: fixed_env_simps)
  have p: "predict_disease (fixed_env (some_info, Finite 98, None) (Inr (reply_with_status 300)) None)
             pumpkin [137, 80, 78, 71] = (some_info, Finite 98, None)"
    by (simp add: fixed_env_simps)
  have n: "(None :: pystr option) = None \<or> (None :: pystr option) = Some []"
    by simp
  have "diagnose_by_url (fixed_env (some_info, Finite 98, None) (Inr (reply_with_status 300)) None)
        pumpkin png_request
     = (Inr \<lparr>filename = [97, 46, 112, 110, 103], confidence = Finite 98,
             disease_info = some_info\<rparr>,
        [Http_get (image_url png_request), Image_verify [137, 80, 78, 71],
         Predict pumpkin [137, 80, 78, 71]])"
    using url_success [OF f v p n] unfolding py_round2_98 png_request_filename .
  then show ?thesis
    by (simp add: fixed_env_simps reply_with_status_def)
qed

section \<open>The URL endpoint rejects bytes that are not an image\<close>

text \<open>
  C4. For every URL request whose fetched bytes fail the image check, the URL endpoint
  answers 400 and the prediction collaborator is not called: the log holds the fetch and
  the image check only. In every run the log is a beginning of fetch, image check,
  prediction: the image check comes after the fetch and before the prediction.
\<close>

theorem invalid_image_400:
  "(fetched_bytes env request = Some b \<and> image_verify env b = Some e
    \<longrightarrow> response_status (fst (diagnose_by_url env crop request)) = 400
        \<and> snd (diagnose_by_url env crop request) = [Http_get (image_url request), Image_verify b]
        \<and> \<not> list_ex is_predict (snd (diagnose_by_url env crop request)))
   \<and> (\<exists>b'. prefix (snd (diagnose_by_url env crop request))
               [Http_get (image_url request), Image_verify b', Predict crop b'])"
proof (intro conjI impI)
  assume "fetched_bytes env request = Some b \<and> image_verify env b = Some e"
  then have "diagnose_by_url env crop request =
           (Inl \<lparr>status_code = 400, detail = invalid_image_text @ e\<rparr>,
            [Http_get (image_url request), Image_verify b])"
    by (simp add: url_invalid_image)
  then show "response_status (fst (diagnose_by_url env crop request)) = 400"
    and "snd (diagnose_by_url env crop request) = [Http_get (image_url request), Image_verify b]"
    and "\<not> list_ex is_predict (snd (diagnose_by_url env crop request))"
    by simp_all
next
  show "\<exists>b'. prefix (snd (diagnose_by_url env crop request))
               [Http_get (image_url request), Image_verify b', Predict crop b']"
    by (rule url_log_order)
qed

theorem invalid_image_400_witness:
  "fetched_bytes (fixed_env (some_info, Finite 98, None) (Inr (reply_with_status 200)) (Some [120]))
      png_request = Some [137, 80, 78, 71]
   \<and> image_verify (fixed_env (some_info, Finite 98, None) (Inr (reply_with_status 200)) (Some [120]))
      [137, 80, 78, 71] = Some [120]
   \<and> response_status (fst (diagnose_by_url
        (fixed_env (some_info, Finite 98, None) (Inr (reply_with_status 200)) (Some [120]))
        pumpkin png_request)) = 400
   \<and> snd (diagnose_by_url
        (fixed_env (some_info, Finite 98, None) (Inr (reply_with_status 200)) (Some [120]))
        pumpkin png_request)
      = [Http_get (image_url png_request), Image_verify [137, 80, 78, 71]]"
  using invalid_image_400 [of
      "fixed_env (some_info, Finite 98, None) (Inr (reply_with_status 200)) (Some [120])"
      png_request "[137, 80, 78, 71]" "[120]" pumpkin]
  by (simp add: fixed_env_fetched fixed_env_simps)

section \<open>The confidence of a result is rounded\<close>

text \<open>
  C5. On both endpoints, when the prediction collaborator returns no truthy error, the
  confidence of the result is \<open>round(confidence, 2)\<close> of the collaborator's confidence,
  which is that confidence rounded to 2 decimal places: for a finite value there is a
  decimal \<open>d\<close> of two places, at most half a hundredth away from it, of which the result is
  a binary64 neighbour, at most half a spacing away from \<open>d\<close>; and the result is a float
  when the collaborator's confidence is one.
\<close>

theorem confidence_is_rounded:
  assumes "error = None \<or> error = Some []"
  shows "(content_type file = Some ct \<and> startswith ct image_prefix
          \<and> predict_disease env crop (file_contents file) = (info, conf, error)
          \<longrightarrow> (\<exists>r. fst (diagnose_crop env crop file) = Inr r
                   \<and> confidence r = py_round2 conf
                   \<and> (\<exists>d. rounded_to_2_places d conf (confidence r))
                   \<and> (is_float conf \<longrightarrow> is_float (confidence r))))
       \<and> (fetched_bytes env request = Some b \<and> image_verify env b = None
          \<and> predict_disease env crop b = (info, conf, error)
          \<longrightarrow> (\<exists>r. fst (diagnose_by_url env crop request) = Inr r
                   \<and> confidence r = py_round2 conf
                   \<and> (\<exists>d. rounded_to_2_places d conf (confidence r))
                   \<and> (is_float conf \<longrightarrow> is_float (confidence r))))"
proof (intro conjI impI)
  assume "content_type file = Some ct \<and> startswith ct image_prefix
          \<and> predict_disease env crop (file_contents file) = (info, conf, error)"
  then show "\<exists>r. fst (diagnose_crop env crop file) = Inr r
                   \<and> confidence r = py_round2 conf
                   \<and> (\<exists>d. rounded_to_2_places d conf (confidence r))
                   \<and> (is_float conf \<longrightarrow> is_float (confidence r))"
    using upload_success [of "file" ct env crop info conf error] assms
    by (simp add: py_round2_rounded py_round2_is_float)
next
  assume "fetched_bytes env request = Some b \<and> image_verify env b = None
          \<and> predict_disease env crop b = (info, conf, error)"
  then show "\<exists>r. fst (diagnose_by_url env crop request) = Inr r
                   \<and> confidence r = py_round2 conf
                   \<and> (\<exists>d. rounded_to_2_places d conf (confidence r))
                   \<and> (is_float conf \<longrightarrow> is_float (confidence r))"
    using url_success [of env request b crop info conf error] assms
    by (simp add: py_round2_rounded py_round2_is_float)
qed

theorem confidence_is_rounded_witness:
  "is_float (Finite (785 / 8))
   \<and> (\<exists>r. fst (diagnose_crop
            (fixed_env (some_info, Finite (785 / 8), None) (Inr (reply_with_status 200)) None)
            pumpkin png_upload) = Inr r
        \<and> confidence r = Finite (863072647339049 / 8796093022208)
        \<and> is_float (confidence r))
   \<and> (\<exists>r. fst (diagnose_by_url
            (fixed_env (some_info, Finite (785 / 8), None) (Inr (reply_with_status 200)) None)
            pumpkin png_request) = Inr r
        \<and> confidence r = Finite (863072647339049 / 8796093022208)
        \<and> is_float (confidence r))"
proof -
  let ?env = "fixed_env (some_info, Finite (785 / 8), None) (Inr (reply_with_status 200)) None"
  have fl: "is_float (Finite (785 / 8))"
    by (simp add: is_binary64_98125)
  have h: "(None :: pystr option) = None \<or> (None :: pystr option) = Some []"
    by simp
  have up: "content_type png_upload = Some [105, 109, 97, 103, 101, 47, 112, 110, 103]
            \<and> startswith [105, 109, 97, 103, 101, 47, 112, 110, 103] image_prefix
            \<and> predict_disease ?env pumpkin (file_contents png_upload)
                = (some_info, Finite (785 / 8), None)"
    by (simp add: fixed_env_simps png_upload_simps)
  have url: "fetched_bytes ?env png_request = Some [137, 80, 78, 71]
             \<and> image_verify ?env [137, 80, 78, 71] = None
             \<and> predict_disease ?env pumpkin [137, 80, 78, 71]
                 = (some_info, Finite (785 / 8), None)"
    by (simp add: fixed_env_fetched fixed_env_simps)
  from confidence_is_rounded [OF h, of png_upload "[105, 109, 97, 103, 101, 47, 112, 110, 103]"
      ?env pumpkin some_info "Finite (785 / 8)" png_request "[137, 80, 78, 71]"] up url fl
  show ?thesis unfolding py_round2_98125 by blast
qed

section \<open>The confidence of a result is not bounded by the handlers\<close>

text \<open>
  C6, as stated, has the confidence of every successful response in [0, 100]. The
  handlers return \<open>round(confidence, 2)\<close> of whatever the prediction collaborator gives,
  with no clamp and no validation: when the collaborator answers 150 without an error,
  both endpoints answer 200 with the confidence 150.
\<close>

theorem confidence_150_counterexample:
  "fst (diagnose_crop
        (fixed_env (some_info, Finite 150, None) (Inr (reply_with_status 200)) None)
        pumpkin png_upload)
      = Inr \<lparr>filename = [97, 46, 112, 110, 103], confidence = Finite 150,
             disease_info = some_info\<rparr>
   \<and> fst (diagnose_by_url
        (fixed_env (some_info, Finite 150, None) (Inr (reply_with_status 200)) None)
        pumpkin png_request)
      = Inr \<lparr>filename = [97, 46, 112, 110, 103], confidence = Finite 150,
             disease_info = some_info\<rparr>
   \<and> \<not> in_percent_range (Finite 150)"
proof -
  let ?env = "fixed_env (some_info, Finite 150, None) (Inr (reply_with_status 200)) None"
  have n: "(None :: pystr option) = None \<or> (None :: pystr option) = Some []"
    by simp
  have f: "fetched_bytes ?env png_request = Some [137, 80, 78, 71]"
    by (simp add: fixed_env_fetched)
  have v: "image_verify ?env [137, 80, 78, 71] = None"
    and p: "predict_disease ?env pumpkin [137, 80, 78, 71] = (some_info, Finite 150, None)"
    and p': "predict_disease ?env pumpkin (file_contents png_upload)
               = (some_info, Finite 150, None)"
    by (simp_all add: fixed_env_simps)
  have up: "fst (diagnose_crop ?env pumpkin png_upload)
      = Inr \<lparr>filename = [97, 46, 112, 110, 103], confidence = Finite 150,
             disease_info = some_info\<rparr>"
    using upload_success [OF png_upload_simps(1,2) p' n]
    unfolding py_round2_150 png_upload_simps by simp
  have url: "fst (diagnose_by_url ?env pumpkin png_request)
      = Inr \<lparr>filename = [97, 46, 112, 110, 103], confidence = Finite 150,
             disease_info = some_info\<rparr>"
    using url_success [OF f v p n] unfolding py_round2_150 png_request_filename by simp
  from up url show ?thesis by simp
qed

text \<open>
  C6, amended. For every successful prediction on either endpoint for which the
  collaborator's confidence lies in [0, 100], the confidence of the result lies in
  [0, 100]: \<open>round(confidence, 2)\<close> does not leave the interval.
\<close>

theorem confidence_in_percent_range:
  assumes "in_percent_range conf"
    and "predict_disease env crop b = (info, conf, error)"
  shows "(file_contents file = b \<and> fst (diagnose_crop env crop file) = Inr r
          \<longrightarrow> in_percent_range (confidence r))
       \<and> (fetched_bytes env request = Some b \<and> fst (diagnose_by_url env crop request) = Inr r'
          \<longrightarrow> in_percent_range (confidence r'))"
proof -
  note p = assms(2)
  have truthy: "\<exists>e. error = Some e \<and> e \<noteq> []" if "\<not> (error = None \<or> error = Some [])"
    using that by (cases error) auto
  have ok: "in_percent_range (py_round2 conf)"
    using assms(1) by (rule py_round2_in_range)
  show ?thesis
  proof (intro conjI impI)
    assume a: "file_contents file = b \<and> fst (diagnose_crop env crop file) = Inr r"
    then obtain ct where ct: "content_type file = Some ct" "startswith ct image_prefix"
      by (cases "content_type file") (auto simp: diagnose_crop_def split: if_splits)
    from a p have pf: "predict_disease env crop (file_contents file) = (info, conf, error)"
      by simp
    show "in_percent_range (confidence r)"
    proof (cases "error = None \<or> error = Some []")
      case True
      from upload_success [OF ct pf True] a have "confidence r = py_round2 conf" by auto
      with ok show ?thesis by simp
    next
      case False
      from truthy [OF False] obtain e where e: "error = Some e" "e \<noteq> []" by auto
      from upload_error [OF ct pf [unfolded e(1)] e(2)] a show ?thesis by simp
    qed
  next
    assume a: "fetched_bytes env request = Some b
               \<and> fst (diagnose_by_url env crop request) = Inr r'"
    then have f: "fetched_bytes env request = Some b" by simp
    show "in_percent_range (confidence r')"
    proof (cases "image_verify env b")
      case (Some e)
      from url_invalid_image [OF f Some, of crop] a show ?thesis by simp
    next
      case None
      show ?thesis
      proof (cases "error = None \<or> error = Some []")
        case True
        from url_success [OF f None p True] a have "confidence r' = py_round2 conf" by auto
        with ok show ?thesis by simp
      next
        case False
        from truthy [OF False] obtain e where e: "error = Some e" "e \<noteq> []" by auto
        from url_error [OF f None p [unfolded e(1)] e(2)] a show ?thesis by simp
      qed
    qed
  qed
qed

theorem confidence_in_percent_range_witness:
  "in_percent_range (Finite (785 / 8))
   \<and> in_percent_range (Finite (863072647339049 / 8796093022208))
   \<and> fst (diagnose_crop
        (fixed_env (some_info, Finite (785 / 8), None) (Inr (reply_with_status 200)) None)
        pumpkin png_upload)
      = Inr \<lparr>filename = [97, 46, 112, 110, 103],
             confidence = Finite (863072647339049 / 8796093022208),
             disease_info = some_info\<rparr>
   \<and> fst (diagnose_by_url
        (fixed_env (some_info, Finite (785 / 8), None) (Inr (reply_with_status 200)) None)
        pumpkin png_request)
      = Inr \<lparr>filename = [97, 46, 112, 110, 103],
             confidence = Finite (863072647339049 / 8796093022208),
             disease_info = some_info\<rparr>"
proof -
  let ?env = "fixed_env (some_info, Finite (785 / 8), None) (Inr (reply_with_status 200)) None"
  let ?r = "\<lparr>filename = [97, 46, 112, 110, 103],
             confidence = Finite (863072647339049 / 8796093022208),
             disease_info = some_info\<rparr>"
  have n: "(None :: pystr option) = None \<or> (None :: pystr option) = Some []"
    by simp
  have f: "fetched_bytes ?env png_request = Some [137, 80, 78, 71]"
    by (simp add: fixed_env_fetched)
  have v: "image_verify ?env [137, 80, 78, 71] = None"
    and p: "predict_disease ?env pumpkin [137, 80, 78, 71] = (some_info, Finite (785 / 8), None)"
    and p': "predict_disease ?env pumpkin (file_contents png_upload)
               = (some_info, Finite (785 / 8), None)"
    by (simp_all add: fixed_env_simps)
  have up: "fst (diagnose_crop ?env pumpkin png_upload) = Inr ?r"
    using upload_success [OF png_upload_simps(1,2) p' n]
    unfolding py_round2_98125 png_upload_simps by simp
  have url: "fst (diagnose_by_url ?env pumpkin png_request) = Inr ?r"
    using url_success [OF f v p n] unfolding py_round2_98125 png_request_filename by simp
  have h: "in_percent_range (Finite (785 / 8))"
    by simp
  from confidence_in_percent_range [OF h p, of png_upload ?r png_request ?r] up url f
  have "in_percent_range (Finite (863072647339049 / 8796093022208))"
    by (simp add: png_upload_simps)
  with h up url show ?thesis by simp
qed

section \<open>The file name of the URL endpoint\<close>

text \<open>
  C7. For every successful URL request the file name of the result is the part of the
  image URL after its last \<open>"/"\<close>: it is \<open>url.split("/")[-1]\<close>, it holds no \<open>"/"\<close>, and
  when the URL holds a \<open>"/"\<close> the URL is some text, a \<open>"/"\<close> and the file name.
\<close>

theorem url_filename_is_last_segment:
  assumes "fst (diagnose_by_url env crop request) = Inr r"
  shows "filename r = after_last_slash (image_url request)
         \<and> filename r = last (split slash (image_url request))
         \<and> slash \<notin> set (filename r)
         \<and> (slash \<in> set (image_url request)
            \<longrightarrow> (\<exists>pre. image_url request = pre @ [slash] @ filename r))"
proof -
  have "filename r = after_last_slash (image_url request)"
    using assms
    by (auto simp: diagnose_by_url_def Let_def index_last_split
             split: sum.splits option.splits prod.splits if_splits)
  then show ?thesis
    using after_last_slash_free [of "image_url request"]
      after_last_slash_decomp [of "image_url request"]
    by (simp add: last_split)
qed

theorem url_filename_is_last_segment_witness:
  "fst (diagnose_by_url
        (fixed_env (some_info, Finite 98, None) (Inr (reply_with_status 200)) None)
        pumpkin png_request)
      = Inr \<lparr>filename = [97, 46, 112, 110, 103], confidence = Finite 98,
             disease_info = some_info\<rparr>
   \<and> slash \<in> set (image_url png_request)
   \<and> (\<exists>pre. image_url png_request = pre @ [slash] @ [97, 46, 112, 110, 103])"
proof -
  let ?env = "fixed_env (some_info, Finite 98, None) (Inr (reply_with_status 200)) None"
  have n: "(None :: pystr option) = None \<or> (None :: pystr option) = Some []"
    by simp
  have f: "fetched_bytes ?env png_request = Some [137, 80, 78, 71]"
    by (simp add: fixed_env_fetched)
  have v: "image_verify ?env [137, 80, 78, 71] = None"
    and p: "predict_disease ?env pumpkin [137, 80, 78, 71] = (some_info, Finite 98, None)"
    by (simp_all add: fixed_env_simps)
  have url: "fst (diagnose_by_url ?env pumpkin png_request)
               = Inr \<lparr>filename = [97, 46, 112, 110, 103], confidence = Finite 98,
                      disease_info = some_info\<rparr>"
    using url_success [OF f v p n] unfolding py_round2_98 png_request_filename by simp
  have s: "slash \<in> set (image_url png_request)"
    by (simp add: slash_def png_request_def)
  have "slash \<in> set (image_url png_request)
        \<longrightarrow> (\<exists>pre. image_url png_request = pre @ [slash]
                    @ filename \<lparr>filename = [97, 46, 112, 110, 103], confidence = Finite 98,
                                disease_info = some_info\<rparr>)"
    using url_filename_is_last_segment [OF url] by blast
  with s have "\<exists>pre. image_url png_request = pre @ [slash] @ [97, 46, 112, 110, 103]"
    by simp
  with s url show ?thesis by (intro conjI)
qed

section \<open>Both endpoints map errors alike\<close>

text \<open>
  C8. Once both handlers reach the prediction call with the same crop name and the same
  image bytes, they answer with the same status and the same error detail, whatever
  the collaborator returns.
\<close>

theorem handlers_same_error_mapping:
  assumes "content_type file = Some ct" and "startswith ct image_prefix"
    and "file_contents file = b"
    and "fetched_bytes env request = Some b"
    and "image_verify env b = None"
  shows "response_status (fst (diagnose_crop env crop file))
           = response_status (fst (diagnose_by_url env crop request))
         \<and> error_detail (fst (diagnose_crop env crop file))
           = error_detail (fst (diagnose_by_url env crop request))"
proof -
  obtain info conf error where p: "predict_disease env crop b = (info, conf, error)"
    by (cases "predict_disease env crop b") auto
  from p assms(3) have pf: "predict_disease env crop (file_contents file) = (info, conf, error)"
    by simp
  show ?thesis
  proof (cases "error = None \<or> error = Some []")
    case True
    from upload_success [OF assms(1,2) pf True] url_success [OF assms(4,5) p True]
    show ?thesis by simp
  next
    case False
    then obtain e where e: "error = Some e" "e \<noteq> []"
      by (cases error) auto
    from upload_error [OF assms(1,2) pf [unfolded e(1)] e(2)]
      url_error [OF assms(4,5) p [unfolded e(1)] e(2)]
    show ?thesis by simp
  qed
qed

theorem handlers_same_error_mapping_witness:
  "content_type png_upload = Some [105, 109, 97, 103, 101, 47, 112, 110, 103]
   \<and> startswith [105, 109, 97, 103, 101, 47, 112, 110, 103] image_prefix
   \<and> fetched_bytes (fixed_env (some_info, Finite 0, Some model_missing_marker)
          (Inr (reply_with_status 200)) None) png_request = Some (file_contents png_upload)
   \<and> response_status (fst (diagnose_crop
        (fixed_env (some_info, Finite 0, Some model_missing_marker)
          (Inr (reply_with_status 200)) None) pumpkin png_upload)) = 404
   \<and> response_status (fst (diagnose_by_url
        (fixed_env (some_info, Finite 0, Some model_missing_marker)
          (Inr (reply_with_status 200)) None) pumpkin png_request)) = 404
   \<and> error_detail (fst (diagnose_by_url
        (fixed_env (some_info, Finite 0, Some model_missing_marker)
          (Inr (reply_with_status 200)) None) pumpkin png_request))
      = error_detail (fst (diagnose_crop
        (fixed_env (some_info, Finite 0, Some model_missing_marker)
          (Inr (reply_with_status 200)) None) pumpkin png_upload))"
proof -
  let ?env = "fixed_env (some_info, Finite 0, Some model_missing_marker)
          (Inr (reply_with_status 200)) None"
  have ct: "content_type png_upload = Some [105, 109, 97, 103, 101, 47, 112, 110, 103]"
    and sw: "startswith [105, 109, 97, 103, 101, 47, 112, 110, 103] image_prefix"
    and fc: "file_contents png_upload = [137, 80, 78, 71]"
    by (simp_all add: png_upload_simps)
  have f: "fetched_bytes ?env png_request = Some [137, 80, 78, 71]"
    by (simp add: fixed_env_fetched)
  have v: "image_verify ?env [137, 80, 78, 71] = None"
    and p: "predict_disease ?env pumpkin (file_contents png_upload)
              = (some_info, Finite 0, Some model_missing_marker)"
    by (simp_all add: fixed_env_simps)
  have ne: "model_missing_marker \<noteq> []"
    by (simp add: model_missing_marker_def)
  have up: "response_status (fst (diagnose_crop ?env pumpkin png_upload)) = 404"
    using upload_error [OF ct sw p ne] by simp
  from handlers_same_error_mapping [OF ct sw fc f v, of pumpkin] up ct sw f fc
  show ?thesis by simp
qed

section \<open>An empty error is no error\<close>

text \<open>
  C9. On both endpoints, when the prediction collaborator returns \<open>None\<close> or the empty
  string as its error, with any disease information and any confidence, the handler
  takes the success path: it answers 200 with a result built from those values.
\<close>

theorem falsy_error_takes_success_path:
  assumes "error = None \<or> error = Some []"
  shows "(content_type file = Some ct \<and> startswith ct image_prefix
          \<and> predict_disease env crop (file_contents file) = (info, conf, error)
          \<longrightarrow> fst (diagnose_crop env crop file)
                = Inr \<lparr>filename = file_filename file, confidence = py_round2 conf,
                       disease_info = info\<rparr>
              \<and> response_status (fst (diagnose_crop env crop file)) = 200)
       \<and> (fetched_bytes env request = Some b \<and> image_verify env b = None
          \<and> predict_disease env crop b = (info, conf, error)
          \<longrightarrow> fst (diagnose_by_url env crop request)
                = Inr \<lparr>filename = after_last_slash (image_url request),
                       confidence = py_round2 conf, disease_info = info\<rparr>
              \<and> response_status (fst (diagnose_by_url env crop request)) = 200)"
proof (intro conjI impI)
  assume a: "content_type file = Some ct \<and> startswith ct image_prefix
          \<and> predict_disease env crop (file_contents file) = (info, conf, error)"
  from a assms show "fst (diagnose_crop env crop file)
                = Inr \<lparr>filename = file_filename file, confidence = py_round2 conf,
                       disease_info = info\<rparr>"
    using upload_success [of "file" ct env crop info conf error] by simp
  then show "response_status (fst (diagnose_crop env crop file)) = 200"
    by simp
next
  assume a: "fetched_bytes env request = Some b \<and> image_verify env b = None
          \<and> predict_disease env crop b = (info, conf, error)"
  from a assms show "fst (diagnose_by_url env crop request)
                = Inr \<lparr>filename = after_last_slash (image_url request),
                       confidence = py_round2 conf, disease_info = info\<rparr>"
    using url_success [of env request b crop info conf error] by simp
  then show "response_status (fst (diagnose_by_url env crop request)) = 200"
    by simp
qed

theorem falsy_error_takes_success_path_witness:
  "response_status (fst (diagnose_crop
       (fixed_env (some_info, NaN, Some []) (Inr (reply_with_status 200)) None)
       pumpkin png_upload)) = 200
   \<and> fst (diagnose_crop
       (fixed_env (some_info, NaN, Some []) (Inr (reply_with_status 200)) None)
       pumpkin png_upload)
      = Inr \<lparr>filename = [97, 46, 112, 110, 103], confidence = NaN, disease_info = some_info\<rparr>
   \<and> fst (diagnose_by_url
       (fixed_env (some_info, NaN, Some []) (Inr (reply_with_status 200)) None)
       pumpkin png_request)
      = Inr \<lparr>filename = [97, 46, 112, 110, 103], confidence = NaN, disease_info = some_info\<rparr>"
proof -
  let ?env = "fixed_env (some_info, NaN, Some []) (Inr (reply_with_status 200)) None"
  have h: "Some ([] :: pystr) = None \<or> Some ([] :: pystr) = Some []"
    by simp
  have up: "content_type png_upload = Some [105, 109, 97, 103, 101, 47, 112, 110, 103]
            \<and> startswith [105, 109, 97, 103, 101, 47, 112, 110, 103] image_prefix
            \<and> predict_disease ?env pumpkin (file_contents png_upload) = (some_info, NaN, Some [])"
    by (simp add: fixed_env_simps png_upload_simps)
  have url: "fetched_bytes ?env png_request = Some [137, 80, 78, 71]
             \<and> image_verify ?env [137, 80, 78, 71] = None
             \<and> predict_disease ?env pumpkin [137, 80, 78, 71] = (some_info, NaN, Some [])"
    by (simp add: fixed_env_fetched fixed_env_simps)
  from falsy_error_takes_success_path [OF h, of png_upload
      "[105, 109, 97, 103, 101, 47, 112, 110, 103]" ?env pumpkin some_info NaN
      png_request "[137, 80, 78, 71]"] up url
  show ?thesis
    by (simp add: png_upload_simps png_request_filename)
qed

section \<open>The upload endpoint does not check the image\<close>

text \<open>
  C10. For every upload whose content type starts with \<open>"image/"\<close>, the upload endpoint
  passes the uploaded bytes to the prediction collaborator without checking that they
  are an image: the only call is the prediction, the outcome does not depend on the image
  check, and the status is never 400; the URL endpoint answers 400 for the same bytes
  when the image check fails.
\<close>

theorem upload_skips_image_check:
  assumes "content_type file = Some ct" and "startswith ct image_prefix"
  shows "snd (diagnose_crop env crop file) = [Predict crop (file_contents file)]
         \<and> \<not> list_ex is_verify (snd (diagnose_crop env crop file))
         \<and> response_status (fst (diagnose_crop env crop file)) \<noteq> 400
         \<and> diagnose_crop (env\<lparr>image_verify := v\<rparr>) crop file = diagnose_crop env crop file
         \<and> (fetched_bytes env request = Some (file_contents file)
            \<and> image_verify env (file_contents file) = Some e
            \<longrightarrow> response_status (fst (diagnose_by_url env crop request)) = 400)"
proof -
  obtain info conf error where
    p: "predict_disease env crop (file_contents file) = (info, conf, error)"
    by (cases "predict_disease env crop (file_contents file)") auto
  have "snd (diagnose_crop env crop file) = [Predict crop (file_contents file)]
        \<and> response_status (fst (diagnose_crop env crop file)) \<noteq> 400"
  proof (cases "error = None \<or> error = Some []")
    case True
    from upload_success [OF assms p True] show ?thesis by simp
  next
    case False
    then obtain e' where e: "error = Some e'" "e' \<noteq> []"
      by (cases error) auto
    from upload_error [OF assms p [unfolded e(1)] e(2)] show ?thesis by simp
  qed
  moreover have "diagnose_crop (env\<lparr>image_verify := v\<rparr>) crop file = diagnose_crop env crop file"
    using assms by (simp add: diagnose_crop_def)
  moreover have "response_status (fst (diagnose_by_url env crop request)) = 400"
    if "fetched_bytes env request = Some (file_contents file)"
      and "image_verify env (file_contents file) = Some e"
    using url_invalid_image [OF that, of crop] by simp
  ultimately show ?thesis by simp
qed

theorem upload_skips_image_check_witness:
  "content_type png_upload = Some [105, 109, 97, 103, 101, 47, 112, 110, 103]
   \<and> startswith [105, 109, 97, 103, 101, 47, 112, 110, 103] image_prefix
   \<and> image_verify (fixed_env (some_info, Finite 98, None) (Inr (reply_with_status 200))
        (Some [120])) (file_contents png_upload) = Some [120]
   \<and> snd (diagnose_crop
        (fixed_env (some_info, Finite 98, None) (Inr (reply_with_status 200)) (Some [120]))
        pumpkin png_upload) = [Predict pumpkin [137, 80, 78, 71]]
   \<and> response_status (fst (diagnose_crop
        (fixed_env (some_info, Finite 98, None) (Inr (reply_with_status 200)) (Some [120]))
        pumpkin png_upload)) \<noteq> 400
   \<and> response_status (fst (diagnose_by_url
        (fixed_env (some_info, Finite 98, None) (Inr (reply_with_status 200)) (Some [120]))
        pumpkin png_request)) = 400"
proof -
  let ?env = "fixed_env (some_info, Finite 98, None) (Inr (reply_with_status 200)) (Some [120])"
  have ct: "content_type png_upload = Some [105, 109, 97, 103, 101, 47, 112, 110, 103]"
    and sw: "startswith [105, 109, 97, 103, 101, 47, 112, 110, 103] image_prefix"
    by (simp_all add: png_upload_simps)
  have f: "fetched_bytes ?env png_request = Some (file_contents png_upload)"
    by (simp add: fixed_env_fetched png_upload_simps)
  have v: "image_verify ?env (file_contents png_upload) = Some [120]"
    by (simp add: fixed_env_simps)
  from upload_skips_image_check [OF ct sw, of ?env pumpkin "\<lambda>b. None" png_request "[120]"]
    ct sw f v
  show ?thesis by (simp add: png_upload_simps)
qed

end
